theory Spec2Isabelle
  imports Complex_Main
begin

section \<open>Conway's Game of Life: the grid (game.c)\<close>

text \<open>
  A shallow embedding of \<^verbatim>\<open>game.c\<close> and \<^verbatim>\<open>patterns.c\<close>.

  The C struct \<^verbatim>\<open>Game\<close> is a record. Its two buffers are allocated by two separate
  \<^verbatim>\<open>calloc\<close> calls and are only ever exchanged by pointer, so they never alias: each is a
  list of its own, and the pointer swap of \<^verbatim>\<open>game_step\<close> exchanges the two fields.

  A C \<^verbatim>\<open>int\<close> is modelled by \<open>int\<close>. The coordinate arithmetic of the code
  (\<^verbatim>\<open>x + dx\<close>, \<^verbatim>\<open>y * width + x\<close>) stays inside the 32-bit range whenever the coordinates are
  inside the grid, and so do the additions of \<^verbatim>\<open>set_cells\<close> (an origin plus a table entry
  of at most 35) for the origins the driver passes. The one product that can leave the
  range for arguments the driver can pass, \<^verbatim>\<open>width * height\<close> in \<^verbatim>\<open>game_create\<close> and
  \<^verbatim>\<open>game_clear\<close>, has its two's-complement wrap written out.
  A buffer access \<^verbatim>\<open>buf[i]\<close> is \<open>buf ! nat i\<close> and \<open>buf[nat i := v]\<close>; the lemmas
  below show that the index is inside the buffer for every cell of a grid whose buffers
  have \<open>width * height\<close> elements.
\<close>

record Game =
  width :: int
  height :: int
  cells :: "int list"
  "next" :: "int list"

subsection \<open>Allocation\<close>

text \<open>
  What the C library answers to the three allocation requests of \<^verbatim>\<open>game_create\<close> is a
  parameter: whether \<^verbatim>\<open>malloc(sizeof(Game))\<close> returns a block, and whether the first and
  the second \<^verbatim>\<open>calloc\<close> return one for a request of a given number of elements (a \<^verbatim>\<open>size_t\<close> value).
\<close>

record alloc_env =
  malloc_game :: bool
  calloc_cells :: "int \<Rightarrow> bool"
  calloc_next :: "int \<Rightarrow> bool"

definition always_ok :: alloc_env where
  "always_ok = \<lparr>malloc_game = True, calloc_cells = (\<lambda>n. True), calloc_next = (\<lambda>n. True)\<rparr>"

text \<open>The value an \<^verbatim>\<open>int\<close> expression has after two's-complement wrap-around.\<close>

definition int_wrap :: "int \<Rightarrow> int" where
  "int_wrap v = (v + 2 ^ 31) mod 2 ^ 32 - 2 ^ 31"

text \<open>
  The conversion of an \<^verbatim>\<open>int\<close> argument to the 64-bit \<^verbatim>\<open>size_t\<close> parameter of \<^verbatim>\<open>calloc\<close>;
  a \<^verbatim>\<open>size_t\<close> value is an \<open>int\<close> in \<open>{0..<2 ^ 64}\<close>.
\<close>

definition size_t_of_int :: "int \<Rightarrow> int" where
  "size_t_of_int v = v mod 2 ^ 64"

text \<open>\<^verbatim>\<open>sizeof(int)\<close>.\<close>

definition sizeof_int :: int where
  "sizeof_int = 4"

text \<open>
  \<^verbatim>\<open>calloc(nmemb, size)\<close> for a buffer of \<^verbatim>\<open>int\<close>: the zeroed buffer, or \<open>None\<close> for
  NULL. No block of \<open>nmemb * size\<close> bytes exists when the product does not fit
  \<^verbatim>\<open>size_t\<close>, so the call returns NULL then; otherwise the environment decides.
\<close>

definition calloc :: "(int \<Rightarrow> bool) \<Rightarrow> int \<Rightarrow> int \<Rightarrow> int list option" where
  "calloc avail nmemb sz =
     (if nmemb * sz < 2 ^ 64 \<and> avail nmemb then Some (replicate (nat nmemb) 0) else None)"

text \<open>
  \<^verbatim>\<open>game_create\<close>: \<open>None\<close> is the NULL result. Both \<^verbatim>\<open>calloc\<close> calls are made before
  either result is tested, and the dimensions are stored as they were passed.
\<close>

definition game_create :: "alloc_env \<Rightarrow> int \<Rightarrow> int \<Rightarrow> Game option" where
  "game_create env w h =
     (if \<not> malloc_game env then None
      else
        (let size = int_wrap (w * h);
             c = calloc (calloc_cells env) (size_t_of_int size) sizeof_int;
             n = calloc (calloc_next env) (size_t_of_int size) sizeof_int
         in if c = None \<or> n = None then None
            else Some \<lparr>width = w, height = h, cells = the c, next = the n\<rparr>))"

subsection \<open>Cell access\<close>

definition game_get_cell :: "Game \<Rightarrow> int \<Rightarrow> int \<Rightarrow> int" where
  "game_get_cell g x y =
     (if x < 0 \<or> x \<ge> width g \<or> y < 0 \<or> y \<ge> height g then 0
      else cells g ! nat (y * width g + x))"

definition game_set_cell :: "Game \<Rightarrow> int \<Rightarrow> int \<Rightarrow> int \<Rightarrow> Game" where
  "game_set_cell g x y alive =
     (if x < 0 \<or> x \<ge> width g \<or> y < 0 \<or> y \<ge> height g then g
      else g\<lparr>cells := (cells g)[nat (y * width g + x) := (if alive \<noteq> 0 then 1 else 0)]\<rparr>)"

subsection \<open>Neighbour count\<close>

text \<open>The inner loop of \<^verbatim>\<open>count_neighbors\<close>, over \<open>dx\<close>, and the outer one, over \<open>dy\<close>.\<close>

function count_neighbors_dx :: "Game \<Rightarrow> int \<Rightarrow> int \<Rightarrow> int \<Rightarrow> int \<Rightarrow> int \<Rightarrow> int" where
  "count_neighbors_dx g x y dy dx count =
     (if dx \<le> 1 then
        (if dx = 0 \<and> dy = 0 then count_neighbors_dx g x y dy (dx + 1) count
         else count_neighbors_dx g x y dy (dx + 1) (count + game_get_cell g (x + dx) (y + dy)))
      else count)"
  by pat_completeness auto
termination
  by (relation "measure (\<lambda>(g, x, y, dy, dx, count). nat (2 - dx))") auto

function count_neighbors_dy :: "Game \<Rightarrow> int \<Rightarrow> int \<Rightarrow> int \<Rightarrow> int \<Rightarrow> int" where
  "count_neighbors_dy g x y dy count =
     (if dy \<le> 1 then count_neighbors_dy g x y (dy + 1) (count_neighbors_dx g x y dy (- 1) count)
      else count)"
  by pat_completeness auto
termination
  by (relation "measure (\<lambda>(g, x, y, dy, count). nat (2 - dy))") auto

definition count_neighbors :: "Game \<Rightarrow> int \<Rightarrow> int \<Rightarrow> int" where
  "count_neighbors g x y = count_neighbors_dy g x y (- 1) 0"

declare count_neighbors_dx.simps [simp del]
declare count_neighbors_dy.simps [simp del]

subsection \<open>The generation step\<close>

text \<open>
  The inner loop of \<^verbatim>\<open>game_step\<close> (over \<open>x\<close>, one row) and the outer one (over \<open>y\<close>).
  Each iteration reads \<^verbatim>\<open>cells\<close> and writes \<^verbatim>\<open>next\<close>.
\<close>

function step_x :: "Game \<Rightarrow> int \<Rightarrow> int \<Rightarrow> Game" where
  "step_x g y x =
     (if x < width g then
        (let n = count_neighbors g x y;
             alive = cells g ! nat (y * width g + x)
         in if alive \<noteq> 0
            then step_x (g\<lparr>next := (next g)[nat (y * width g + x) := (if n = 2 \<or> n = 3 then 1 else 0)]\<rparr>) y (x + 1)
            else step_x (g\<lparr>next := (next g)[nat (y * width g + x) := (if n = 3 then 1 else 0)]\<rparr>) y (x + 1))
      else g)"
  by pat_completeness auto
termination
  by (relation "measure (\<lambda>(g, y, x). nat (width g - x))") auto

declare step_x.simps [simp del]

lemma step_x_height: "height (step_x g y x) = height g"
  by (induction g y x rule: step_x.induct) (subst step_x.simps, simp add: Let_def)

function step_y :: "Game \<Rightarrow> int \<Rightarrow> Game" where
  "step_y g y = (if y < height g then step_y (step_x g y 0) (y + 1) else g)"
  by pat_completeness auto
termination
  by (relation "measure (\<lambda>(g, y). nat (height g - y))") (auto simp: step_x_height)

declare step_y.simps [simp del]

definition game_step :: "Game \<Rightarrow> Game" where
  "game_step g = (let g' = step_y g 0 in g'\<lparr>cells := next g', next := cells g'\<rparr>)"

subsection \<open>Randomizing and clearing\<close>

text \<open>
  \<^verbatim>\<open>game_randomize\<close> computes one draw \<^verbatim>\<open>r = (float)rand() / (float)RAND_MAX\<close> per
  cell. The random source is outside the program: \<open>draws k\<close> is the value of \<open>r\<close> at
  the \<open>k\<close>-th call (a \<^verbatim>\<open>float\<close> that is not a NaN, so a rational, and \<^verbatim>\<open>r < density\<close> is
  the order of the reals). The loops thread the number of draws consumed so far.
\<close>

function randomize_x :: "(nat \<Rightarrow> real) \<Rightarrow> real \<Rightarrow> Game \<Rightarrow> nat \<Rightarrow> int \<Rightarrow> int \<Rightarrow> Game \<times> nat" where
  "randomize_x draws density g k y x =
     (if x < width g then
        (let r = draws k
         in randomize_x draws density
              (g\<lparr>cells := (cells g)[nat (y * width g + x) := (if r < density then 1 else 0)]\<rparr>)
              (k + 1) y (x + 1))
      else (g, k))"
  by pat_completeness auto
termination
  by (relation "measure (\<lambda>(draws, density, g, k, y, x). nat (width g - x))") auto

declare randomize_x.simps [simp del]

lemma randomize_x_height: "height (fst (randomize_x draws density g k y x)) = height g"
  by (induction draws density g k y x rule: randomize_x.induct)
     (subst randomize_x.simps, simp add: Let_def)

function randomize_y :: "(nat \<Rightarrow> real) \<Rightarrow> real \<Rightarrow> Game \<Rightarrow> nat \<Rightarrow> int \<Rightarrow> Game \<times> nat" where
  "randomize_y draws density g k y =
     (if y < height g then
        randomize_y draws density (fst (randomize_x draws density g k y 0))
          (snd (randomize_x draws density g k y 0)) (y + 1)
      else (g, k))"
  by pat_completeness auto
termination
  by (relation "measure (\<lambda>(draws, density, g, k, y). nat (height g - y))")
     (auto simp: randomize_x_height)

declare randomize_y.simps [simp del]

definition game_randomize :: "(nat \<Rightarrow> real) \<Rightarrow> Game \<Rightarrow> real \<Rightarrow> Game" where
  "game_randomize draws g density = fst (randomize_y draws density g 0 0)"

text \<open>
  \<^verbatim>\<open>memset(buf, 0, nbytes)\<close> on a buffer of \<^verbatim>\<open>int\<close>: the first \<open>nbytes div sizeof(int)\<close>
  elements become 0 (the byte counts of \<^verbatim>\<open>game_clear\<close> are multiples of \<^verbatim>\<open>sizeof(int)\<close>).
  A count beyond the end of the buffer is undefined in C; the model writes inside the
  buffer only, and for a grid with \<open>buffers_ok\<close> the count is the length of the buffer.
\<close>

definition memset_zero :: "int list \<Rightarrow> int \<Rightarrow> int list" where
  "memset_zero buf nbytes =
     (let n = nat (nbytes div sizeof_int) in replicate (min n (length buf)) 0 @ drop n buf)"

definition game_clear :: "Game \<Rightarrow> Game" where
  "game_clear g =
     (let nbytes = (size_t_of_int (int_wrap (width g * height g)) * sizeof_int) mod 2 ^ 64
      in g\<lparr>cells := memset_zero (cells g) nbytes, next := memset_zero (next g) nbytes\<rparr>)"

section \<open>The pattern catalog (patterns.c)\<close>

datatype PatternType =
  PATTERN_GLIDER | PATTERN_BLINKER | PATTERN_TOAD | PATTERN_BEACON | PATTERN_PULSAR
  | PATTERN_GOSPER_GUN

text \<open>The loop of \<^verbatim>\<open>set_cells\<close>; \<open>coords ! nat i\<close> is the pair \<^verbatim>\<open>coords[i]\<close>.\<close>

function set_cells_from :: "Game \<Rightarrow> int \<Rightarrow> int \<Rightarrow> (int \<times> int) list \<Rightarrow> int \<Rightarrow> int \<Rightarrow> Game" where
  "set_cells_from g ox oy coords count i =
     (if i < count then
        set_cells_from
          (game_set_cell g (ox + fst (coords ! nat i)) (oy + snd (coords ! nat i)) 1)
          ox oy coords count (i + 1)
      else g)"
  by pat_completeness auto
termination
  by (relation "measure (\<lambda>(g, ox, oy, coords, count, i). nat (count - i))") auto

declare set_cells_from.simps [simp del]

definition set_cells :: "Game \<Rightarrow> int \<Rightarrow> int \<Rightarrow> (int \<times> int) list \<Rightarrow> int \<Rightarrow> Game" where
  "set_cells g ox oy coords count = set_cells_from g ox oy coords count 0"

definition place_glider :: "Game \<Rightarrow> int \<Rightarrow> int \<Rightarrow> Game" where
  "place_glider g x y = set_cells g x y [(1,0),(2,1),(0,2),(1,2),(2,2)] 5"

definition place_blinker :: "Game \<Rightarrow> int \<Rightarrow> int \<Rightarrow> Game" where
  "place_blinker g x y = set_cells g x y [(0,0),(1,0),(2,0)] 3"

definition place_toad :: "Game \<Rightarrow> int \<Rightarrow> int \<Rightarrow> Game" where
  "place_toad g x y = set_cells g x y [(1,0),(2,0),(3,0),(0,1),(1,1),(2,1)] 6"

definition place_beacon :: "Game \<Rightarrow> int \<Rightarrow> int \<Rightarrow> Game" where
  "place_beacon g x y = set_cells g x y [(0,0),(1,0),(0,1),(3,2),(2,3),(3,3)] 6"

definition place_pulsar :: "Game \<Rightarrow> int \<Rightarrow> int \<Rightarrow> Game" where
  "place_pulsar g x y = set_cells g x y
     [(2,0),(3,0),(4,0),(8,0),(9,0),(10,0),
      (0,2),(5,2),(7,2),(12,2),
      (0,3),(5,3),(7,3),(12,3),
      (0,4),(5,4),(7,4),(12,4),
      (2,5),(3,5),(4,5),(8,5),(9,5),(10,5),
      (2,7),(3,7),(4,7),(8,7),(9,7),(10,7),
      (0,8),(5,8),(7,8),(12,8),
      (0,9),(5,9),(7,9),(12,9),
      (0,10),(5,10),(7,10),(12,10),
      (2,12),(3,12),(4,12),(8,12),(9,12),(10,12)] 48"

definition place_gosper_gun :: "Game \<Rightarrow> int \<Rightarrow> int \<Rightarrow> Game" where
  "place_gosper_gun g x y = set_cells g x y
     [(0,4),(0,5),(1,4),(1,5),
      (10,4),(10,5),(10,6),(11,3),(11,7),(12,2),(12,8),(13,2),(13,8),
      (14,5),(15,3),(15,7),(16,4),(16,5),(16,6),(17,5),
      (20,2),(20,3),(20,4),(21,2),(21,3),(21,4),(22,1),(22,5),
      (24,0),(24,1),(24,5),(24,6),
      (34,2),(34,3),(35,2),(35,3)] 36"

fun pattern_load :: "Game \<Rightarrow> PatternType \<Rightarrow> int \<Rightarrow> int \<Rightarrow> Game" where
  "pattern_load g PATTERN_GLIDER x y = place_glider g x y"
| "pattern_load g PATTERN_BLINKER x y = place_blinker g x y"
| "pattern_load g PATTERN_TOAD x y = place_toad g x y"
| "pattern_load g PATTERN_BEACON x y = place_beacon g x y"
| "pattern_load g PATTERN_PULSAR x y = place_pulsar g x y"
| "pattern_load g PATTERN_GOSPER_GUN x y = place_gosper_gun g x y"

text \<open>
  \<^verbatim>\<open>pattern_from_name(name, out)\<close>. A C string is the list of its characters before the
  terminator, and \<^verbatim>\<open>strcmp(a, b) == 0\<close> is their equality. The second argument is what
  \<^verbatim>\<open>*out\<close> holds before the call; the result is the returned \<^verbatim>\<open>int\<close> and what \<^verbatim>\<open>*out\<close>
  holds afterwards.
\<close>

definition pattern_from_name :: "string \<Rightarrow> PatternType \<Rightarrow> int \<times> PatternType" where
  "pattern_from_name name out =
     (if name = ''glider'' then (1, PATTERN_GLIDER)
      else if name = ''blinker'' then (1, PATTERN_BLINKER)
      else if name = ''toad'' then (1, PATTERN_TOAD)
      else if name = ''beacon'' then (1, PATTERN_BEACON)
      else if name = ''pulsar'' then (1, PATTERN_PULSAR)
      else if name = ''gosper'' then (1, PATTERN_GOSPER_GUN)
      else if name = ''gosper_gun'' then (1, PATTERN_GOSPER_GUN)
      else (0, out))"

section \<open>Vocabulary of the properties\<close>

text \<open>The coordinates of the cells of a grid.\<close>

definition in_grid :: "Game \<Rightarrow> int \<Rightarrow> int \<Rightarrow> bool" where
  "in_grid g x y = (0 \<le> x \<and> x < width g \<and> 0 \<le> y \<and> y < height g)"

text \<open>Both buffers hold \<open>width * height\<close> elements, as \<^verbatim>\<open>game_create\<close> allocates them.\<close>

definition buffers_ok :: "Game \<Rightarrow> bool" where
  "buffers_ok g =
     (length (cells g) = nat (width g * height g) \<and> length (next g) = nat (width g * height g))"

text \<open>A buffer of binary cells: every element is 0 (dead) or 1 (alive).\<close>

definition binary :: "int list \<Rightarrow> bool" where
  "binary xs = list_all (\<lambda>v. v = 0 \<or> v = 1) xs"

text \<open>
  The live count of the Moore neighbourhood as the specification words it: the number of
  the eight offsets \<open>(dx, dy)\<close> at which \<^verbatim>\<open>game_get_cell\<close> reads a live cell (a neighbour
  outside the grid reads dead).
\<close>

definition moore_offsets :: "(int \<times> int) list" where
  "moore_offsets = [(- 1, - 1), (0, - 1), (1, - 1), (- 1, 0), (1, 0), (- 1, 1), (0, 1), (1, 1)]"

definition live_neighbors :: "Game \<Rightarrow> int \<Rightarrow> int \<Rightarrow> int" where
  "live_neighbors g x y =
     int (length (filter (\<lambda>(dx, dy). game_get_cell g (x + dx) (y + dy) \<noteq> 0) moore_offsets))"

text \<open>The value that one iteration of \<^verbatim>\<open>game_step\<close> stores for the cell \<open>(x, y)\<close>.\<close>

definition next_cell :: "Game \<Rightarrow> int \<Rightarrow> int \<Rightarrow> int" where
  "next_cell g x y =
     (let n = count_neighbors g x y;
          alive = cells g ! nat (y * width g + x)
      in if alive \<noteq> 0 then (if n = 2 \<or> n = 3 then 1 else 0) else (if n = 3 then 1 else 0))"

text \<open>The live cells of the current generation, row by row.\<close>

definition grid_coords :: "Game \<Rightarrow> (int \<times> int) list" where
  "grid_coords g = concat (map (\<lambda>y. map (\<lambda>x. (x, y)) [0..width g - 1]) [0..height g - 1])"

definition alive_cells :: "Game \<Rightarrow> (int \<times> int) list" where
  "alive_cells g = filter (\<lambda>(x, y). game_get_cell g x y \<noteq> 0) (grid_coords g)"

text \<open>
  The operations that change a grid after its creation, and a run of them. A
  \<open>Randomize\<close> carries the draws its call receives from the random source.
\<close>

datatype grid_op =
  SetCell int int int
  | Clear
  | Randomize "nat \<Rightarrow> real" real
  | Step
  | PatternLoad PatternType int int

fun apply_op :: "Game \<Rightarrow> grid_op \<Rightarrow> Game" where
  "apply_op g (SetCell x y alive) = game_set_cell g x y alive"
| "apply_op g Clear = game_clear g"
| "apply_op g (Randomize draws density) = game_randomize draws g density"
| "apply_op g Step = game_step g"
| "apply_op g (PatternLoad t x y) = pattern_load g t x y"

fun run_ops :: "Game \<Rightarrow> grid_op list \<Rightarrow> Game" where
  "run_ops g [] = g"
| "run_ops g (op # ops) = run_ops (apply_op g op) ops"

section \<open>Properties of the grid\<close>

subsection \<open>Creation\<close>

lemma int_wrap_id: "- (2 ^ 31) \<le> v \<Longrightarrow> v < 2 ^ 31 \<Longrightarrow> int_wrap v = v"
  by (simp add: int_wrap_def)

lemma size_t_of_int_nonneg: "0 \<le> v \<Longrightarrow> v < 2 ^ 31 \<Longrightarrow> size_t_of_int v = v"
  by (simp add: size_t_of_int_def)

lemma size_t_of_int_neg:
  assumes "- (2 ^ 31) \<le> v" and "v < 0"
  shows "size_t_of_int v = v + 2 ^ 64"
proof -
  have "(v + 2 ^ 64) mod 2 ^ 64 = v + 2 ^ 64"
    using assms by (intro mod_pos_pos_trivial) auto
  then have "v mod 2 ^ 64 = v + 2 ^ 64"
    by simp
  then show ?thesis
    by (simp add: size_t_of_int_def)
qed

lemma calloc_negative:
  "- (2 ^ 31) \<le> v \<Longrightarrow> v < 0 \<Longrightarrow> calloc avail (size_t_of_int v) sizeof_int = None"
  by (auto simp add: size_t_of_int_neg calloc_def sizeof_int_def)

lemma calloc_nonneg:
  "0 \<le> v \<Longrightarrow> v < 2 ^ 31 \<Longrightarrow>
   calloc avail (size_t_of_int v) sizeof_int =
     (if avail v then Some (replicate (nat v) 0) else None)"
  by (auto simp add: size_t_of_int_nonneg calloc_def sizeof_int_def)

lemma game_create_Some:
  "game_create env w h = Some g \<Longrightarrow> 0 \<le> w * h \<Longrightarrow> w * h < 2 ^ 31 \<Longrightarrow>
   g = \<lparr>width = w, height = h, cells = replicate (nat (w * h)) 0,
        next = replicate (nat (w * h)) 0\<rparr>"
  by (auto simp add: game_create_def int_wrap_id calloc_nonneg Let_def split: if_splits)

text \<open>
  Claim C2 says that \<open>create(width, height)\<close> returns a failure outcome whenever
  \<open>width \<le> 0\<close> or \<open>height \<le> 0\<close>. \<^verbatim>\<open>game_create\<close> has no test of its arguments: its only
  failure is a NULL from \<^verbatim>\<open>malloc\<close> or \<^verbatim>\<open>calloc\<close>. With both dimensions \<open>-1\<close> the element
  count is \<open>1\<close>, and where the allocations succeed the call returns a Game of width \<open>-1\<close>
  and height \<open>-1\<close> over one-cell buffers.
\<close>

theorem game_create_negative_dimensions_succeeds:
  "game_create always_ok (- 1) (- 1) =
     Some \<lparr>width = - 1, height = - 1, cells = [0], next = [0]\<rparr>"
  by (simp add: game_create_def always_ok_def int_wrap_def size_t_of_int_def calloc_def
      sizeof_int_def)

lemma int_wrap_range: "- (2 ^ 31) \<le> int_wrap v \<and> int_wrap v < 2 ^ 31"
proof -
  have "0 \<le> (v + 2 ^ 31) mod 2 ^ 32" "(v + 2 ^ 31) mod 2 ^ 32 < (2 ^ 32 :: int)"
    by simp_all
  then show ?thesis
    by (simp add: int_wrap_def)
qed

text \<open>
  Claim C2 as amended: \<^verbatim>\<open>game_create\<close> does not validate its dimensions; it fails exactly
  when one of its allocations fails. The element count it requests is the \<^verbatim>\<open>int\<close> product
  \<open>width * height\<close> (the product itself when it fits the 32-bit \<^verbatim>\<open>int\<close>, its wrap otherwise).
  When that count is negative the \<^verbatim>\<open>calloc\<close> request cannot be met and the call fails
  whatever the allocator does; when it is not negative the call fails exactly when one of
  its three allocations fails, whatever the signs of the two dimensions.
\<close>

theorem game_create_fails_only_on_allocation:
  "(int_wrap (w * h) < 0 \<longrightarrow> game_create env w h = None)
   \<and> (0 \<le> int_wrap (w * h) \<longrightarrow>
        (game_create env w h = None \<longleftrightarrow>
           \<not> malloc_game env \<or> \<not> calloc_cells env (int_wrap (w * h))
           \<or> \<not> calloc_next env (int_wrap (w * h))))
   \<and> (- (2 ^ 31) \<le> w * h \<and> w * h < 2 ^ 31 \<longrightarrow> int_wrap (w * h) = w * h)"
proof -
  have r: "- (2 ^ 31) \<le> int_wrap (w * h)" "int_wrap (w * h) < 2 ^ 31"
    using int_wrap_range [of "w * h"] by simp_all
  have neg: "game_create env w h = None" if "int_wrap (w * h) < 0"
    using that r(1) by (simp add: game_create_def calloc_negative Let_def)
  have nonneg: "game_create env w h = None \<longleftrightarrow>
      \<not> malloc_game env \<or> \<not> calloc_cells env (int_wrap (w * h))
      \<or> \<not> calloc_next env (int_wrap (w * h))" if "0 \<le> int_wrap (w * h)"
    using that r(2) by (simp add: game_create_def calloc_nonneg Let_def)
  show ?thesis
    using neg nonneg by (simp add: int_wrap_id)
qed

theorem game_create_fails_only_on_allocation_witness:
  "int_wrap ((- 1) * 5) < 0
   \<and> game_create always_ok (- 1) 5 = None
   \<and> 0 \<le> int_wrap (0 * 5)
   \<and> game_create always_ok 0 5 \<noteq> None
   \<and> int_wrap ((- 46341) * (- 46341)) < 0
   \<and> game_create always_ok (- 46341) (- 46341) = None
   \<and> 0 \<le> int_wrap ((- 65536) * 65536)
   \<and> game_create always_ok (- 65536) 65536 \<noteq> None"
proof -
  have a: "int_wrap ((- 1) * 5) < 0"
    by (simp add: int_wrap_def)
  have b: "0 \<le> int_wrap (0 * 5)"
    by (simp add: int_wrap_def)
  have c: "int_wrap ((- 46341) * (- 46341)) < 0"
    by (simp add: int_wrap_def)
  have d: "0 \<le> int_wrap ((- 65536) * 65536)"
    by (simp add: int_wrap_def)
  have a': "game_create always_ok (- 1) 5 = None"
    using a game_create_fails_only_on_allocation [of "- 1" 5 always_ok] by blast
  have b': "game_create always_ok 0 5 \<noteq> None"
    using b game_create_fails_only_on_allocation [of 0 5 always_ok]
    by (simp add: always_ok_def)
  have c': "game_create always_ok (- 46341) (- 46341) = None"
    using c game_create_fails_only_on_allocation [of "- 46341" "- 46341" always_ok] by blast
  have d': "game_create always_ok (- 65536) 65536 \<noteq> None"
    using d game_create_fails_only_on_allocation [of "- 65536" 65536 always_ok]
    by (simp add: always_ok_def)
  show ?thesis
    by (intro conjI a a' b b' c c' d d')
qed

subsection \<open>Reading and writing outside the grid\<close>

text \<open>
  Claim C3: for every grid and every coordinate \<open>(x, y)\<close> with \<open>x < 0\<close>, \<open>x \<ge> width\<close>,
  \<open>y < 0\<close> or \<open>y \<ge> height\<close>, \<^verbatim>\<open>game_get_cell\<close> returns 0 (dead).
\<close>

theorem game_get_cell_out_of_range:
  "x < 0 \<or> x \<ge> width g \<or> y < 0 \<or> y \<ge> height g \<Longrightarrow> game_get_cell g x y = 0"
  by (simp add: game_get_cell_def)

theorem game_get_cell_out_of_range_witness:
  "game_get_cell \<lparr>width = 2, height = 2, cells = [1, 1, 1, 1], next = [0, 0, 0, 0]\<rparr> 2 1 = 0
   \<and> game_get_cell \<lparr>width = 2, height = 2, cells = [1, 1, 1, 1], next = [0, 0, 0, 0]\<rparr> 1 (- 1) = 0"
proof -
  let ?g = "\<lparr>width = 2, height = 2, cells = [1, 1, 1, 1], next = [0, 0, 0, 0]\<rparr>"
  have a: "(2::int) < 0 \<or> 2 \<ge> width ?g \<or> (1::int) < 0 \<or> 1 \<ge> height ?g"
    by simp
  have b: "(1::int) < 0 \<or> 1 \<ge> width ?g \<or> (- 1::int) < 0 \<or> - 1 \<ge> height ?g"
    by simp
  show ?thesis
    using game_get_cell_out_of_range [OF a] game_get_cell_out_of_range [OF b] by simp
qed

text \<open>
  Claim C5: for every grid, every out-of-range coordinate and every value \<open>alive\<close>,
  \<^verbatim>\<open>game_set_cell\<close> returns the grid as it was (the function has no error result), so
  every cell reads as before.
\<close>

theorem game_set_cell_out_of_range:
  "x < 0 \<or> x \<ge> width g \<or> y < 0 \<or> y \<ge> height g \<Longrightarrow>
   game_set_cell g x y alive = g
   \<and> game_get_cell (game_set_cell g x y alive) x' y' = game_get_cell g x' y'"
  by (simp add: game_set_cell_def)

theorem game_set_cell_out_of_range_witness:
  "game_set_cell \<lparr>width = 2, height = 2, cells = [1, 0, 0, 1], next = [0, 0, 0, 0]\<rparr> 0 2 1
     = \<lparr>width = 2, height = 2, cells = [1, 0, 0, 1], next = [0, 0, 0, 0]\<rparr>"
proof -
  let ?g = "\<lparr>width = 2, height = 2, cells = [1, 0, 0, 1], next = [0, 0, 0, 0]\<rparr>"
  have a: "(0::int) < 0 \<or> 0 \<ge> width ?g \<or> (2::int) < 0 \<or> 2 \<ge> height ?g"
    by simp
  show ?thesis
    using game_set_cell_out_of_range [OF a, of 1] by simp
qed

subsection \<open>The dimensions are fixed\<close>

lemma step_x_width: "width (step_x g y x) = width g"
  by (induction g y x rule: step_x.induct) (subst step_x.simps, simp add: Let_def)

lemma step_x_cells: "cells (step_x g y x) = cells g"
  by (induction g y x rule: step_x.induct) (subst step_x.simps, simp add: Let_def)

lemma step_y_width: "width (step_y g y) = width g"
  by (induction g y rule: step_y.induct) (subst step_y.simps, simp add: step_x_width)

lemma step_y_height: "height (step_y g y) = height g"
  by (induction g y rule: step_y.induct) (subst step_y.simps, simp add: step_x_height)

lemma step_y_cells: "cells (step_y g y) = cells g"
  by (induction g y rule: step_y.induct) (subst step_y.simps, simp add: step_x_cells)

lemma randomize_x_width: "width (fst (randomize_x draws density g k y x)) = width g"
  by (induction draws density g k y x rule: randomize_x.induct)
     (subst randomize_x.simps, simp add: Let_def)

lemma randomize_x_next: "next (fst (randomize_x draws density g k y x)) = next g"
  by (induction draws density g k y x rule: randomize_x.induct)
     (subst randomize_x.simps, simp add: Let_def)

lemma randomize_y_width: "width (fst (randomize_y draws density g k y)) = width g"
  by (induction draws density g k y rule: randomize_y.induct)
     (subst randomize_y.simps, simp add: randomize_x_width)

lemma randomize_y_height: "height (fst (randomize_y draws density g k y)) = height g"
  by (induction draws density g k y rule: randomize_y.induct)
     (subst randomize_y.simps, simp add: randomize_x_height)

lemma randomize_y_next: "next (fst (randomize_y draws density g k y)) = next g"
  by (induction draws density g k y rule: randomize_y.induct)
     (subst randomize_y.simps, simp add: randomize_x_next)

lemma game_set_cell_width: "width (game_set_cell g x y alive) = width g"
  by (simp add: game_set_cell_def)

lemma game_set_cell_height: "height (game_set_cell g x y alive) = height g"
  by (simp add: game_set_cell_def)

lemma set_cells_from_width: "width (set_cells_from g ox oy coords count i) = width g"
  by (induction g ox oy coords count i rule: set_cells_from.induct)
     (subst set_cells_from.simps, simp add: game_set_cell_width)

lemma set_cells_from_height: "height (set_cells_from g ox oy coords count i) = height g"
  by (induction g ox oy coords count i rule: set_cells_from.induct)
     (subst set_cells_from.simps, simp add: game_set_cell_height)

lemma pattern_load_width: "width (pattern_load g t x y) = width g"
  by (cases t)
     (simp_all add: place_glider_def place_blinker_def place_toad_def place_beacon_def
        place_pulsar_def place_gosper_gun_def set_cells_def set_cells_from_width)

lemma pattern_load_height: "height (pattern_load g t x y) = height g"
  by (cases t)
     (simp_all add: place_glider_def place_blinker_def place_toad_def place_beacon_def
        place_pulsar_def place_gosper_gun_def set_cells_def set_cells_from_height)

lemma game_step_width: "width (game_step g) = width g"
  by (simp add: game_step_def Let_def step_y_width)

lemma game_step_height: "height (game_step g) = height g"
  by (simp add: game_step_def Let_def step_y_height)

lemma game_randomize_width: "width (game_randomize draws g density) = width g"
  by (simp add: game_randomize_def randomize_y_width)

lemma game_randomize_height: "height (game_randomize draws g density) = height g"
  by (simp add: game_randomize_def randomize_y_height)

lemma game_clear_width: "width (game_clear g) = width g"
  by (simp add: game_clear_def Let_def)

lemma game_clear_height: "height (game_clear g) = height g"
  by (simp add: game_clear_def Let_def)

lemma apply_op_width: "width (apply_op g op) = width g"
  by (cases op)
     (simp_all add: game_set_cell_width game_clear_width game_randomize_width game_step_width
        pattern_load_width)

lemma apply_op_height: "height (apply_op g op) = height g"
  by (cases op)
     (simp_all add: game_set_cell_height game_clear_height game_randomize_height
        game_step_height pattern_load_height)

text \<open>
  Claim C8: none of \<^verbatim>\<open>game_set_cell\<close>, \<^verbatim>\<open>game_clear\<close>, \<^verbatim>\<open>game_randomize\<close>, \<^verbatim>\<open>game_step\<close> and
  \<^verbatim>\<open>pattern_load\<close> changes the width or the height of the grid, and so no run of these
  operations does.
\<close>

theorem dimensions_fixed:
  "width (game_set_cell g x y alive) = width g \<and> height (game_set_cell g x y alive) = height g
   \<and> width (game_clear g) = width g \<and> height (game_clear g) = height g
   \<and> width (game_randomize draws g density) = width g
   \<and> height (game_randomize draws g density) = height g
   \<and> width (game_step g) = width g \<and> height (game_step g) = height g
   \<and> width (pattern_load g t ox oy) = width g \<and> height (pattern_load g t ox oy) = height g
   \<and> width (run_ops g ops) = width g \<and> height (run_ops g ops) = height g"
proof -
  have "width (run_ops g ops) = width g \<and> height (run_ops g ops) = height g"
    by (induction ops arbitrary: g) (simp_all add: apply_op_width apply_op_height)
  then show ?thesis
    by (simp add: game_set_cell_width game_set_cell_height game_clear_width game_clear_height
        game_randomize_width game_randomize_height game_step_width game_step_height
        pattern_load_width pattern_load_height)
qed

subsection \<open>The cells are binary\<close>

lemma binary_replicate_0: "binary (replicate n 0)"
  by (simp add: binary_def list_all_iff)

lemma binary_update: "binary xs \<Longrightarrow> v = 0 \<or> v = 1 \<Longrightarrow> binary (xs[i := v])"
  unfolding binary_def list_all_iff using set_update_subset_insert [of xs i v] by auto

lemma binary_memset_zero: "binary xs \<Longrightarrow> binary (memset_zero xs n)"
  by (auto simp add: binary_def memset_zero_def Let_def list_all_iff dest: in_set_dropD)

lemma step_x_binary_next: "binary (next g) \<Longrightarrow> binary (next (step_x g y x))"
  by (induction g y x rule: step_x.induct)
     (subst step_x.simps, simp add: Let_def binary_update)

lemma step_y_binary_next: "binary (next g) \<Longrightarrow> binary (next (step_y g y))"
  by (induction g y rule: step_y.induct)
     (subst step_y.simps, simp add: step_x_binary_next)

lemma randomize_x_binary: "binary (cells g) \<Longrightarrow> binary (cells (fst (randomize_x draws density g k y x)))"
  by (induction draws density g k y x rule: randomize_x.induct)
     (subst randomize_x.simps, simp add: Let_def binary_update)

lemma randomize_y_binary: "binary (cells g) \<Longrightarrow> binary (cells (fst (randomize_y draws density g k y)))"
  by (induction draws density g k y rule: randomize_y.induct)
     (subst randomize_y.simps, simp add: randomize_x_binary)

lemma game_set_cell_binary: "binary (cells g) \<Longrightarrow> binary (cells (game_set_cell g x y alive))"
  by (simp add: game_set_cell_def binary_update)

lemma game_set_cell_next: "next (game_set_cell g x y alive) = next g"
  by (simp add: game_set_cell_def)

lemma set_cells_from_binary:
  "binary (cells g) \<Longrightarrow> binary (cells (set_cells_from g ox oy coords count i))"
  by (induction g ox oy coords count i rule: set_cells_from.induct)
     (subst set_cells_from.simps, simp add: game_set_cell_binary)

lemma set_cells_from_next: "next (set_cells_from g ox oy coords count i) = next g"
  by (induction g ox oy coords count i rule: set_cells_from.induct)
     (subst set_cells_from.simps, simp add: game_set_cell_next)

lemma pattern_load_binary: "binary (cells g) \<Longrightarrow> binary (cells (pattern_load g t x y))"
  by (cases t)
     (simp_all add: place_glider_def place_blinker_def place_toad_def place_beacon_def
        place_pulsar_def place_gosper_gun_def set_cells_def set_cells_from_binary)

lemma pattern_load_next: "next (pattern_load g t x y) = next g"
  by (cases t)
     (simp_all add: place_glider_def place_blinker_def place_toad_def place_beacon_def
        place_pulsar_def place_gosper_gun_def set_cells_def set_cells_from_next)

lemma apply_op_binary:
  "binary (cells g) \<and> binary (next g) \<Longrightarrow>
   binary (cells (apply_op g op)) \<and> binary (next (apply_op g op))"
  by (cases op)
     (simp_all add: game_set_cell_binary game_set_cell_next game_clear_def Let_def
        binary_memset_zero game_randomize_def randomize_y_binary randomize_y_next
        game_step_def step_y_binary_next step_y_cells pattern_load_binary pattern_load_next)

lemma run_ops_binary:
  "binary (cells g) \<and> binary (next g) \<Longrightarrow>
   binary (cells (run_ops g ops)) \<and> binary (next (run_ops g ops))"
proof (induction ops arbitrary: g)
  case Nil
  then show ?case by simp
next
  case (Cons op ops)
  from Cons.prems have "binary (cells (apply_op g op)) \<and> binary (next (apply_op g op))"
    by (rule apply_op_binary)
  then show ?case
    using Cons.IH by simp
qed

lemma game_create_binary:
  "game_create env w h = Some g \<Longrightarrow> binary (cells g) \<and> binary (next g)"
  by (auto simp add: game_create_def Let_def calloc_def binary_replicate_0 split: if_splits)

text \<open>
  Claim C9: on a grid that \<^verbatim>\<open>game_create\<close> returned, after any run of \<^verbatim>\<open>game_set_cell\<close>,
  \<^verbatim>\<open>game_clear\<close>, \<^verbatim>\<open>game_randomize\<close>, \<^verbatim>\<open>game_step\<close> and \<^verbatim>\<open>pattern_load\<close>, every element of
  the current-generation buffer is 0 or 1.
\<close>

theorem cells_stay_binary:
  "game_create env w h = Some g \<Longrightarrow> binary (cells (run_ops g ops))"
  using run_ops_binary [OF game_create_binary] by blast

theorem cells_stay_binary_witness:
  "game_create always_ok 3 3
     = Some \<lparr>width = 3, height = 3, cells = replicate 9 0, next = replicate 9 0\<rparr>
   \<and> binary (cells (run_ops \<lparr>width = 3, height = 3, cells = replicate 9 0, next = replicate 9 0\<rparr>
        [SetCell 1 1 7, PatternLoad PATTERN_BLINKER 0 1, Step, Clear,
         Randomize (\<lambda>k. if even k then 1 / 2 else 1 / 8) (3 / 10),
         SetCell 0 0 (- 4), SetCell 5 5 1, Step]))
   \<and> cells (run_ops \<lparr>width = 3, height = 3, cells = replicate 9 0, next = replicate 9 0\<rparr>
        [SetCell 1 1 7, PatternLoad PATTERN_BLINKER 0 1, Step, Clear,
         Randomize (\<lambda>k. if even k then 1 / 2 else 1 / 8) (3 / 10),
         SetCell 0 0 (- 4), SetCell 5 5 1, Step])
     = [1, 1, 0, 1, 0, 1, 0, 1, 0]"
proof -
  let ?g = "\<lparr>width = 3, height = 3, cells = replicate 9 0, next = replicate 9 0\<rparr>"
  have a: "game_create always_ok 3 3 = Some ?g"
    by code_simp
  have b: "cells (run_ops ?g
        [SetCell 1 1 7, PatternLoad PATTERN_BLINKER 0 1, Step, Clear,
         Randomize (\<lambda>k. if even k then 1 / 2 else 1 / 8) (3 / 10),
         SetCell 0 0 (- 4), SetCell 5 5 1, Step])
     = [1, 1, 0, 1, 0, 1, 0, 1, 0]"
    by code_simp
  show ?thesis
    by (intro conjI a b cells_stay_binary [OF a])
qed

subsection \<open>The generation step\<close>

lemma count_neighbors_sum:
  "count_neighbors g x y =
     game_get_cell g (x - 1) (y - 1) + game_get_cell g x (y - 1) + game_get_cell g (x + 1) (y - 1)
     + game_get_cell g (x - 1) y + game_get_cell g (x + 1) y
     + game_get_cell g (x - 1) (y + 1) + game_get_cell g x (y + 1) + game_get_cell g (x + 1) (y + 1)"
  by (simp add: count_neighbors_def count_neighbors_dy.simps count_neighbors_dx.simps)

lemma cell_index_bound:
  assumes "0 \<le> x" "x < w" "0 \<le> y" "y < h"
  shows "nat (y * w + x) < nat (w * h)"
proof -
  have "y * w + x < (y + 1) * w"
    using assms by (simp add: algebra_simps)
  also have "(y + 1) * w \<le> h * w"
    using assms by (intro mult_right_mono) auto
  finally have "y * w + x < w * h"
    by (simp add: mult.commute)
  moreover have "0 \<le> y * w + x"
    using assms by simp
  ultimately show ?thesis
    by simp
qed

lemma cell_index_inj:
  assumes "0 \<le> x" "x < w" "0 \<le> x'" "x' < w" "0 \<le> y" "0 \<le> y'"
    and eq: "nat (y * w + x) = nat (y' * w + x')"
  shows "x = x' \<and> y = y'"
proof -
  have "0 \<le> y * w + x" "0 \<le> y' * w + x'"
    using assms by simp_all
  with eq have e: "y * w + x = y' * w + x'"
    by simp
  have "(y * w + x) mod w = x" "(y' * w + x') mod w = x'"
    using assms by simp_all
  with e have x: "x = x'"
    by simp
  from e x have "y * w = y' * w"
    by simp
  moreover have "w \<noteq> 0"
    using assms by auto
  ultimately have "y = y'"
    by simp
  with x show ?thesis
    by simp
qed

lemma sum_list_binary:
  "(\<forall>p \<in> set ps. f p = 0 \<or> f p = (1::int)) \<Longrightarrow>
   sum_list (map f ps) = int (length (filter (\<lambda>p. f p \<noteq> 0) ps))"
  by (induction ps) auto

lemma game_get_cell_binary:
  assumes "buffers_ok g" "binary (cells g)"
  shows "game_get_cell g x y = 0 \<or> game_get_cell g x y = 1"
proof (cases "in_grid g x y")
  case True
  then have "nat (y * width g + x) < nat (width g * height g)"
    unfolding in_grid_def by (intro cell_index_bound) auto
  then have "nat (y * width g + x) < length (cells g)"
    using assms(1) by (simp add: buffers_ok_def)
  then have "cells g ! nat (y * width g + x) \<in> set (cells g)"
    by simp
  then have "cells g ! nat (y * width g + x) = 0 \<or> cells g ! nat (y * width g + x) = 1"
    using assms(2) by (simp add: binary_def list_all_iff)
  then show ?thesis
    by (auto simp add: game_get_cell_def)
next
  case False
  then show ?thesis
    by (auto simp add: game_get_cell_def in_grid_def)
qed

lemma count_neighbors_live:
  assumes "buffers_ok g" "binary (cells g)"
  shows "count_neighbors g x y = live_neighbors g x y"
proof -
  let ?f = "\<lambda>(dx, dy). game_get_cell g (x + dx) (y + dy)"
  have "\<forall>p \<in> set moore_offsets. ?f p = 0 \<or> ?f p = 1"
    using game_get_cell_binary [OF assms] by auto
  then have "sum_list (map ?f moore_offsets)
      = int (length (filter (\<lambda>p. ?f p \<noteq> 0) moore_offsets))"
    by (rule sum_list_binary)
  moreover have "(\<lambda>p. ?f p \<noteq> 0) = (\<lambda>(dx, dy). game_get_cell g (x + dx) (y + dy) \<noteq> 0)"
    by auto
  moreover have "sum_list (map ?f moore_offsets) = count_neighbors g x y"
    by (simp add: moore_offsets_def count_neighbors_sum)
  ultimately show ?thesis
    by (simp add: live_neighbors_def)
qed

lemma count_neighbors_same_cells:
  assumes "width g' = width g" "height g' = height g" "cells g' = cells g"
  shows "count_neighbors g' x y = count_neighbors g x y"
proof -
  have "\<And>a b. game_get_cell g' a b = game_get_cell g a b"
    using assms by (simp add: game_get_cell_def)
  then show ?thesis
    by (simp only: count_neighbors_sum)
qed

lemma next_cell_same_cells:
  "width g' = width g \<Longrightarrow> height g' = height g \<Longrightarrow> cells g' = cells g \<Longrightarrow>
   next_cell g' x y = next_cell g x y"
  by (simp only: next_cell_def count_neighbors_same_cells [of g' g])

lemma next_cell_next_update: "next_cell (g\<lparr>next := b\<rparr>) x y = next_cell g x y"
  by (rule next_cell_same_cells) simp_all

lemma step_x_unfold:
  "step_x g y x =
     (if x < width g
      then step_x (g\<lparr>next := (next g)[nat (y * width g + x) := next_cell g x y]\<rparr>) y (x + 1)
      else g)"
  by (subst step_x.simps) (simp add: next_cell_def Let_def)

lemma step_x_length_next: "length (next (step_x g y x)) = length (next g)"
  by (induction g y x rule: step_x.induct) (subst step_x.simps, simp add: Let_def)

lemma step_x_induct_rule:
  assumes "\<And>g y x. (x < width g \<Longrightarrow>
      P (g\<lparr>next := (next g)[nat (y * width g + x) := next_cell g x y]\<rparr>) y (x + 1)) \<Longrightarrow> P g y x"
  shows "P g y x"
proof (induction g y x rule: step_x.induct)
  case (1 g y x)
  show ?case
  proof (rule assms)
    assume lt: "x < width g"
    show "P (g\<lparr>next := (next g)[nat (y * width g + x) := next_cell g x y]\<rparr>) y (x + 1)"
    proof (cases "cells g ! nat (y * width g + x) \<noteq> 0")
      case True
      with "1.IH"(1) [OF lt refl refl] show ?thesis
        by (simp add: next_cell_def Let_def)
    next
      case False
      with "1.IH"(2) [OF lt refl refl] show ?thesis
        by (simp add: next_cell_def Let_def)
    qed
  qed
qed

lemma step_x_next_other:
  "(\<And>x'. x \<le> x' \<Longrightarrow> x' < width g \<Longrightarrow> i \<noteq> nat (y * width g + x')) \<Longrightarrow>
   next (step_x g y x) ! i = next g ! i"
proof (induction g y x rule: step_x_induct_rule)
  case (1 g y x)
  show ?case
  proof (cases "x < width g")
    case True
    let ?g' = "g\<lparr>next := (next g)[nat (y * width g + x) := next_cell g x y]\<rparr>"
    have "next (step_x ?g' y (x + 1)) ! i = next ?g' ! i"
      using True "1.prems" by (intro "1.IH") auto
    moreover have "i \<noteq> nat (y * width g + x)"
      using True "1.prems" by auto
    ultimately show ?thesis
      using True by (subst step_x_unfold) simp
  next
    case False
    then show ?thesis
      by (subst step_x_unfold) simp
  qed
qed

lemma step_x_next_written:
  "0 \<le> y \<Longrightarrow> 0 \<le> x0 \<Longrightarrow> x0 \<le> x \<Longrightarrow> x < width g \<Longrightarrow>
   nat (y * width g + x) < length (next g) \<Longrightarrow>
   next (step_x g y x0) ! nat (y * width g + x) = next_cell g x y"
proof (induction g y x0 rule: step_x_induct_rule)
  case (1 g y x0)
  let ?g' = "g\<lparr>next := (next g)[nat (y * width g + x0) := next_cell g x0 y]\<rparr>"
  have lt: "x0 < width g"
    using "1.prems" by simp
  have unfold: "step_x g y x0 = step_x ?g' y (x0 + 1)"
    using lt by (subst step_x_unfold) simp
  show ?case
  proof (cases "x = x0")
    case True
    have "nat (y * width g + x0) \<noteq> nat (y * width g + x')" if "x0 + 1 \<le> x'" for x'
    proof -
      have "0 \<le> y * width g"
        using "1.prems" by (intro mult_nonneg_nonneg) auto
      then have "0 \<le> y * width g + x0" "0 \<le> y * width g + x'"
        using "1.prems" that by auto
      then show ?thesis
        using that by auto
    qed
    then have "next (step_x ?g' y (x0 + 1)) ! nat (y * width g + x0)
        = next ?g' ! nat (y * width g + x0)"
      by (intro step_x_next_other) simp
    also have "\<dots> = next_cell g x0 y"
      using "1.prems" True by simp
    finally show ?thesis
      using True unfold by simp
  next
    case False
    then have "next (step_x ?g' y (x0 + 1)) ! nat (y * width ?g' + x) = next_cell ?g' x y"
      using "1.prems" lt by (intro "1.IH") auto
    then show ?thesis
      using unfold by (simp add: next_cell_next_update)
  qed
qed

lemma step_y_length_next: "length (next (step_y g y)) = length (next g)"
  by (induction g y rule: step_y.induct) (subst step_y.simps, simp add: step_x_length_next)

lemma step_y_next_other:
  "(\<And>x' y'. y \<le> y' \<Longrightarrow> 0 \<le> x' \<Longrightarrow> x' < width g \<Longrightarrow> i \<noteq> nat (y' * width g + x')) \<Longrightarrow>
   next (step_y g y) ! i = next g ! i"
proof (induction g y rule: step_y.induct)
  case (1 g y)
  show ?case
  proof (cases "y < height g")
    case True
    have "next (step_y (step_x g y 0) (y + 1)) ! i = next (step_x g y 0) ! i"
      using True "1.prems" by (intro "1.IH") (auto simp add: step_x_width)
    also have "\<dots> = next g ! i"
      using "1.prems" by (intro step_x_next_other) auto
    finally show ?thesis
      using True by (subst step_y.simps) simp
  next
    case False
    then show ?thesis
      by (subst step_y.simps) simp
  qed
qed

lemma step_y_next_written:
  "0 \<le> y0 \<Longrightarrow> y0 \<le> y \<Longrightarrow> y < height g \<Longrightarrow> 0 \<le> x \<Longrightarrow> x < width g \<Longrightarrow>
   nat (y * width g + x) < length (next g) \<Longrightarrow>
   next (step_y g y0) ! nat (y * width g + x) = next_cell g x y"
proof (induction g y0 rule: step_y.induct)
  case (1 g y0)
  let ?g' = "step_x g y0 0"
  have lt: "y0 < height g"
    using "1.prems" by simp
  have unfold: "step_y g y0 = step_y ?g' (y0 + 1)"
    using lt by (subst step_y.simps) simp
  have same: "width ?g' = width g" "height ?g' = height g" "cells ?g' = cells g"
    by (simp_all add: step_x_width step_x_height step_x_cells)
  show ?case
  proof (cases "y = y0")
    case True
    have "nat (y0 * width g + x) \<noteq> nat (y' * width g + x')"
      if "y0 + 1 \<le> y'" "0 \<le> x'" "x' < width g" for x' y'
    proof
      assume eq: "nat (y0 * width g + x) = nat (y' * width g + x')"
      have "x = x' \<and> y0 = y'"
        using "1.prems" that by (intro cell_index_inj [OF _ _ _ _ _ _ eq]) auto
      then show False
        using that by simp
    qed
    then have "next (step_y ?g' (y0 + 1)) ! nat (y0 * width g + x)
        = next ?g' ! nat (y0 * width g + x)"
      by (intro step_y_next_other) (simp add: same)
    also have "\<dots> = next_cell g x y0"
      using "1.prems" True by (intro step_x_next_written) auto
    finally show ?thesis
      using True unfold by simp
  next
    case False
    then have "next (step_y ?g' (y0 + 1)) ! nat (y * width ?g' + x) = next_cell ?g' x y"
      using "1.prems" lt by (intro "1.IH") (auto simp add: same step_x_length_next)
    then show ?thesis
      using unfold by (simp add: same next_cell_same_cells [of ?g' g])
  qed
qed

lemma game_step_cell:
  assumes "buffers_ok g" "in_grid g x y"
  shows "game_get_cell (game_step g) x y = next_cell g x y"
proof -
  have b: "nat (y * width g + x) < nat (width g * height g)"
    using assms(2) unfolding in_grid_def by (intro cell_index_bound) auto
  then have "nat (y * width g + x) < length (next g)"
    using assms(1) by (simp add: buffers_ok_def)
  then have "next (step_y g 0) ! nat (y * width g + x) = next_cell g x y"
    using assms(2) unfolding in_grid_def by (intro step_y_next_written) auto
  then show ?thesis
    using assms(2)
    by (simp add: game_step_def Let_def game_get_cell_def in_grid_def step_y_width step_y_height)
qed

lemma game_step_next: "next (game_step g) = cells g"
  by (simp add: game_step_def Let_def step_y_cells)

text \<open>
  Claim C1: for a grid whose buffers hold \<open>width * height\<close> binary cells and every cell
  \<open>(x, y)\<close> of it, after one \<^verbatim>\<open>game_step\<close> the cell is alive (1) exactly when it was alive
  with 2 or 3 live Moore neighbours, or dead with exactly 3, all read in the generation
  before the step, and dead (0) otherwise. The sum that \<^verbatim>\<open>count_neighbors\<close> computes is the
  live count; the pass over the grid leaves the \<^verbatim>\<open>cells\<close> buffer as it was, and after the
  swap the former generation is intact in \<^verbatim>\<open>next\<close>.
\<close>

theorem game_step_conway_rule:
  assumes "buffers_ok g" and "binary (cells g)" and "in_grid g x y"
  shows "game_get_cell (game_step g) x y =
           (if game_get_cell g x y \<noteq> 0
            then (if live_neighbors g x y = 2 \<or> live_neighbors g x y = 3 then 1 else 0)
            else (if live_neighbors g x y = 3 then 1 else 0))
         \<and> count_neighbors g x y = live_neighbors g x y
         \<and> cells (step_y g 0) = cells g
         \<and> next (game_step g) = cells g"
proof -
  have n: "count_neighbors g x y = live_neighbors g x y"
    using assms(1,2) by (rule count_neighbors_live)
  have "game_get_cell g x y = cells g ! nat (y * width g + x)"
    using assms(3) by (simp add: game_get_cell_def in_grid_def)
  then have "next_cell g x y =
           (if game_get_cell g x y \<noteq> 0
            then (if live_neighbors g x y = 2 \<or> live_neighbors g x y = 3 then 1 else 0)
            else (if live_neighbors g x y = 3 then 1 else 0))"
    by (simp add: next_cell_def Let_def n)
  then show ?thesis
    by (simp add: game_step_cell [OF assms(1,3)] n step_y_cells game_step_next)
qed

theorem game_step_conway_rule_witness:
  "buffers_ok \<lparr>width = 3, height = 3, cells = [0, 0, 0, 1, 1, 1, 0, 0, 0], next = replicate 9 0\<rparr>
   \<and> binary (cells \<lparr>width = 3, height = 3, cells = [0, 0, 0, 1, 1, 1, 0, 0, 0], next = replicate 9 0\<rparr>)
   \<and> in_grid \<lparr>width = 3, height = 3, cells = [0, 0, 0, 1, 1, 1, 0, 0, 0], next = replicate 9 0\<rparr> 1 0
   \<and> game_get_cell \<lparr>width = 3, height = 3, cells = [0, 0, 0, 1, 1, 1, 0, 0, 0], next = replicate 9 0\<rparr> 1 0 = 0
   \<and> live_neighbors \<lparr>width = 3, height = 3, cells = [0, 0, 0, 1, 1, 1, 0, 0, 0], next = replicate 9 0\<rparr> 1 0 = 3
   \<and> game_get_cell (game_step \<lparr>width = 3, height = 3, cells = [0, 0, 0, 1, 1, 1, 0, 0, 0], next = replicate 9 0\<rparr>) 1 0 = 1"
proof -
  let ?g = "\<lparr>width = 3, height = 3, cells = [0, 0, 0, 1, 1, 1, 0, 0, 0], next = replicate 9 0\<rparr>"
  have a: "buffers_ok ?g"
    by (simp add: buffers_ok_def)
  have b: "binary (cells ?g)"
    by (simp add: binary_def)
  have c: "in_grid ?g 1 0"
    by (simp add: in_grid_def)
  have d: "game_get_cell ?g 1 0 = 0"
    by (simp add: game_get_cell_def)
  have e: "live_neighbors ?g 1 0 = 3"
    by (simp add: live_neighbors_def moore_offsets_def game_get_cell_def)
  have "game_get_cell (game_step ?g) 1 0 = 1"
    using game_step_conway_rule [OF a b c] by (simp only: d e) simp
  with a b c d e show ?thesis
    by (intro conjI)
qed

subsection \<open>The blinker\<close>

text \<open>
  Claim C4: on the grid that \<^verbatim>\<open>game_create\<close> returns for 10 by 10, loading the blinker at
  \<open>(3, 3)\<close> makes exactly the cells \<open>(3,3), (4,3), (5,3)\<close> alive; after one \<^verbatim>\<open>game_step\<close>
  exactly \<open>(4,2), (4,3), (4,4)\<close> are alive; after a second one exactly \<open>(3,3), (4,3), (5,3)\<close>
  are alive again, and the current generation is the one before the two steps.
\<close>

theorem blinker_period_two:
  "game_create always_ok 10 10
     = Some \<lparr>width = 10, height = 10, cells = replicate 100 0, next = replicate 100 0\<rparr>
   \<and> alive_cells (pattern_load
         \<lparr>width = 10, height = 10, cells = replicate 100 0, next = replicate 100 0\<rparr>
         PATTERN_BLINKER 3 3)
       = [(3, 3), (4, 3), (5, 3)]
   \<and> alive_cells (game_step (pattern_load
         \<lparr>width = 10, height = 10, cells = replicate 100 0, next = replicate 100 0\<rparr>
         PATTERN_BLINKER 3 3))
       = [(4, 2), (4, 3), (4, 4)]
   \<and> alive_cells (game_step (game_step (pattern_load
         \<lparr>width = 10, height = 10, cells = replicate 100 0, next = replicate 100 0\<rparr>
         PATTERN_BLINKER 3 3)))
       = [(3, 3), (4, 3), (5, 3)]
   \<and> cells (game_step (game_step (pattern_load
         \<lparr>width = 10, height = 10, cells = replicate 100 0, next = replicate 100 0\<rparr>
         PATTERN_BLINKER 3 3)))
       = cells (pattern_load
         \<lparr>width = 10, height = 10, cells = replicate 100 0, next = replicate 100 0\<rparr>
         PATTERN_BLINKER 3 3)"
  by code_simp

subsection \<open>Randomizing\<close>

lemma randomize_x_length_cells:
  "length (cells (fst (randomize_x draws density g k y x))) = length (cells g)"
  by (induction draws density g k y x rule: randomize_x.induct)
     (subst randomize_x.simps, simp add: Let_def)

lemma randomize_x_draws_used:
  "snd (randomize_x draws density g k y x) = k + nat (width g - x)"
  by (induction draws density g k y x rule: randomize_x.induct)
     (subst randomize_x.simps, auto simp add: Let_def)

lemma randomize_x_cells_other:
  "(\<And>x'. x \<le> x' \<Longrightarrow> x' < width g \<Longrightarrow> i \<noteq> nat (y * width g + x')) \<Longrightarrow>
   cells (fst (randomize_x draws density g k y x)) ! i = cells g ! i"
proof (induction draws density g k y x rule: randomize_x.induct)
  case (1 draws density g k y x)
  show ?case
  proof (cases "x < width g")
    case True
    let ?g' = "g\<lparr>cells := (cells g)[nat (y * width g + x) := (if draws k < density then 1 else 0)]\<rparr>"
    have "cells (fst (randomize_x draws density ?g' (k + 1) y (x + 1))) ! i = cells ?g' ! i"
      using True "1.prems" by (intro "1.IH" [OF True refl]) auto
    moreover have "i \<noteq> nat (y * width g + x)"
      using True "1.prems" by auto
    ultimately show ?thesis
      using True by (subst randomize_x.simps) (simp add: Let_def)
  next
    case False
    then show ?thesis
      by (subst randomize_x.simps) simp
  qed
qed

lemma randomize_x_cells_written:
  "0 \<le> y \<Longrightarrow> 0 \<le> x0 \<Longrightarrow> x0 \<le> x \<Longrightarrow> x < width g \<Longrightarrow>
   nat (y * width g + x) < length (cells g) \<Longrightarrow>
   cells (fst (randomize_x draws density g k y x0)) ! nat (y * width g + x)
     = (if draws (k + nat (x - x0)) < density then 1 else 0)"
proof (induction draws density g k y x0 rule: randomize_x.induct)
  case (1 draws density g k y x0)
  let ?g' = "g\<lparr>cells := (cells g)[nat (y * width g + x0) := (if draws k < density then 1 else 0)]\<rparr>"
  have lt: "x0 < width g"
    using "1.prems" by simp
  have unfold: "randomize_x draws density g k y x0 = randomize_x draws density ?g' (k + 1) y (x0 + 1)"
    using lt by (subst randomize_x.simps) (simp add: Let_def)
  show ?case
  proof (cases "x = x0")
    case True
    have "nat (y * width g + x0) \<noteq> nat (y * width g + x')" if "x0 + 1 \<le> x'" for x'
    proof -
      have "0 \<le> y * width g"
        using "1.prems" by (intro mult_nonneg_nonneg) auto
      then have "0 \<le> y * width g + x0" "0 \<le> y * width g + x'"
        using "1.prems" that by auto
      then show ?thesis
        using that by auto
    qed
    then have "cells (fst (randomize_x draws density ?g' (k + 1) y (x0 + 1))) ! nat (y * width g + x0)
        = cells ?g' ! nat (y * width g + x0)"
      by (intro randomize_x_cells_other) simp
    also have "\<dots> = (if draws k < density then 1 else 0)"
      using "1.prems" True by simp
    finally show ?thesis
      using True unfold by simp
  next
    case False
    then have "cells (fst (randomize_x draws density ?g' (k + 1) y (x0 + 1))) ! nat (y * width ?g' + x)
        = (if draws (k + 1 + nat (x - (x0 + 1))) < density then 1 else 0)"
      using "1.prems" lt by (intro "1.IH" [OF lt refl]) auto
    moreover have "k + 1 + nat (x - (x0 + 1)) = k + nat (x - x0)"
      using False "1.prems" by auto
    ultimately have "cells (fst (randomize_x draws density ?g' (k + 1) y (x0 + 1))) ! nat (y * width ?g' + x)
        = (if draws (k + nat (x - x0)) < density then 1 else 0)"
      by (simp only:)
    then show ?thesis
      using unfold by simp
  qed
qed

lemma randomize_y_cells_other:
  "(\<And>x' y'. y \<le> y' \<Longrightarrow> 0 \<le> x' \<Longrightarrow> x' < width g \<Longrightarrow> i \<noteq> nat (y' * width g + x')) \<Longrightarrow>
   cells (fst (randomize_y draws density g k y)) ! i = cells g ! i"
proof (induction draws density g k y rule: randomize_y.induct)
  case (1 draws density g k y)
  show ?case
  proof (cases "y < height g")
    case True
    let ?r = "randomize_x draws density g k y 0"
    have "cells (fst (randomize_y draws density (fst ?r) (snd ?r) (y + 1))) ! i = cells (fst ?r) ! i"
      using True "1.prems" by (intro "1.IH") (auto simp add: randomize_x_width)
    also have "\<dots> = cells g ! i"
      using "1.prems" by (intro randomize_x_cells_other) auto
    finally show ?thesis
      using True by (subst randomize_y.simps) simp
  next
    case False
    then show ?thesis
      by (subst randomize_y.simps) simp
  qed
qed

lemma randomize_y_cells_written:
  "0 \<le> y0 \<Longrightarrow> y0 \<le> y \<Longrightarrow> y < height g \<Longrightarrow> 0 \<le> x \<Longrightarrow> x < width g \<Longrightarrow>
   nat (y * width g + x) < length (cells g) \<Longrightarrow>
   cells (fst (randomize_y draws density g k y0)) ! nat (y * width g + x)
     = (if draws (k + nat ((y - y0) * width g + x)) < density then 1 else 0)"
proof (induction draws density g k y0 rule: randomize_y.induct)
  case (1 draws density g k y0)
  let ?r = "randomize_x draws density g k y0 0"
  have lt: "y0 < height g"
    using "1.prems" by simp
  have unfold: "randomize_y draws density g k y0
      = randomize_y draws density (fst ?r) (snd ?r) (y0 + 1)"
    using lt by (subst randomize_y.simps) simp
  have same: "width (fst ?r) = width g" "height (fst ?r) = height g"
    by (simp_all add: randomize_x_width randomize_x_height)
  show ?case
  proof (cases "y = y0")
    case True
    have "nat (y0 * width g + x) \<noteq> nat (y' * width g + x')"
      if "y0 + 1 \<le> y'" "0 \<le> x'" "x' < width g" for x' y'
    proof
      assume eq: "nat (y0 * width g + x) = nat (y' * width g + x')"
      have "x = x' \<and> y0 = y'"
        using "1.prems" that by (intro cell_index_inj [OF _ _ _ _ _ _ eq]) auto
      then show False
        using that by simp
    qed
    then have "cells (fst (randomize_y draws density (fst ?r) (snd ?r) (y0 + 1))) ! nat (y0 * width g + x)
        = cells (fst ?r) ! nat (y0 * width g + x)"
      by (intro randomize_y_cells_other) (simp add: same)
    also have "\<dots> = (if draws (k + nat (x - 0)) < density then 1 else 0)"
      using "1.prems" True by (intro randomize_x_cells_written) auto
    finally show ?thesis
      using True unfold by simp
  next
    case False
    then have "cells (fst (randomize_y draws density (fst ?r) (snd ?r) (y0 + 1)))
          ! nat (y * width (fst ?r) + x)
        = (if draws (snd ?r + nat ((y - (y0 + 1)) * width (fst ?r) + x)) < density then 1 else 0)"
      using "1.prems" lt by (intro "1.IH") (auto simp add: same randomize_x_length_cells)
    moreover have "snd ?r + nat ((y - (y0 + 1)) * width g + x) = k + nat ((y - y0) * width g + x)"
    proof -
      have "0 \<le> (y - (y0 + 1)) * width g"
        using False "1.prems" by (intro mult_nonneg_nonneg) auto
      moreover have "(y - y0) * width g = (y - (y0 + 1)) * width g + width g"
        by (simp add: algebra_simps)
      ultimately show ?thesis
        using "1.prems" by (simp add: randomize_x_draws_used)
    qed
    ultimately show ?thesis
      using unfold by (simp add: same)
  qed
qed

lemma game_randomize_cell:
  assumes "buffers_ok g" "in_grid g x y"
  shows "game_get_cell (game_randomize draws g density) x y
     = (if draws (nat (y * width g + x)) < density then 1 else 0)"
proof -
  have b: "nat (y * width g + x) < nat (width g * height g)"
    using assms(2) unfolding in_grid_def by (intro cell_index_bound) auto
  then have "nat (y * width g + x) < length (cells g)"
    using assms(1) by (simp add: buffers_ok_def)
  then have "cells (fst (randomize_y draws density g 0 0)) ! nat (y * width g + x)
      = (if draws (0 + nat ((y - 0) * width g + x)) < density then 1 else 0)"
    using assms(2) unfolding in_grid_def by (intro randomize_y_cells_written) auto
  then show ?thesis
    using assms(2)
    by (simp add: game_randomize_def game_get_cell_def in_grid_def randomize_y_width
        randomize_y_height)
qed

text \<open>
  Claim C7: given draws that all lie in \<open>[0, 1)\<close>, \<^verbatim>\<open>game_randomize\<close> with density 0 makes
  every cell of the grid dead and with density 1 makes every cell alive; for any density,
  a cell is alive afterwards exactly when its draw is less than the density. The draw of
  the cell \<open>(x, y)\<close> is the one numbered \<open>y * width + x\<close>. (The draws are the values of
  \<^verbatim>\<open>(float)rand() / (float)RAND_MAX\<close>, which the claim takes to lie in \<open>[0, 1)\<close>.)
\<close>

theorem game_randomize_extremes:
  assumes "buffers_ok g" and "\<forall>k. 0 \<le> draws k \<and> draws k < 1" and "in_grid g x y"
  shows "game_get_cell (game_randomize draws g 0) x y = 0
         \<and> game_get_cell (game_randomize draws g 1) x y = 1
         \<and> (game_get_cell (game_randomize draws g density) x y \<noteq> 0
              \<longleftrightarrow> draws (nat (y * width g + x)) < density)"
proof -
  have "\<not> draws (nat (y * width g + x)) < 0" "draws (nat (y * width g + x)) < 1"
    using assms(2) by (simp_all add: not_less)
  then show ?thesis
    by (simp add: game_randomize_cell [OF assms(1,3)])
qed

theorem game_randomize_extremes_witness:
  "buffers_ok \<lparr>width = 2, height = 2, cells = [1, 0, 0, 1], next = [0, 0, 0, 0]\<rparr>
   \<and> (\<forall>k::nat. 0 \<le> (if even k then 0 else 3 / 4 :: real) \<and> (if even k then 0 else 3 / 4 :: real) < 1)
   \<and> in_grid \<lparr>width = 2, height = 2, cells = [1, 0, 0, 1], next = [0, 0, 0, 0]\<rparr> 1 0
   \<and> game_get_cell (game_randomize (\<lambda>k. if even k then 0 else 3 / 4)
        \<lparr>width = 2, height = 2, cells = [1, 0, 0, 1], next = [0, 0, 0, 0]\<rparr> 0) 1 0 = 0
   \<and> game_get_cell (game_randomize (\<lambda>k. if even k then 0 else 3 / 4)
        \<lparr>width = 2, height = 2, cells = [1, 0, 0, 1], next = [0, 0, 0, 0]\<rparr> 1) 1 0 = 1
   \<and> cells (game_randomize (\<lambda>k. if even k then 0 else 3 / 4)
        \<lparr>width = 2, height = 2, cells = [1, 0, 0, 1], next = [0, 0, 0, 0]\<rparr> 0) = [0, 0, 0, 0]
   \<and> cells (game_randomize (\<lambda>k. if even k then 0 else 3 / 4)
        \<lparr>width = 2, height = 2, cells = [1, 0, 0, 1], next = [0, 0, 0, 0]\<rparr> 1) = [1, 1, 1, 1]
   \<and> cells (game_randomize (\<lambda>k. if even k then 0 else 3 / 4)
        \<lparr>width = 2, height = 2, cells = [1, 0, 0, 1], next = [0, 0, 0, 0]\<rparr> (1 / 2)) = [1, 0, 1, 0]"
proof -
  let ?g = "\<lparr>width = 2, height = 2, cells = [1, 0, 0, 1], next = [0, 0, 0, 0]\<rparr>"
  let ?d = "\<lambda>k::nat. if even k then 0 else 3 / 4 :: real"
  have a: "buffers_ok ?g"
    by (simp add: buffers_ok_def)
  have b: "\<forall>k. 0 \<le> ?d k \<and> ?d k < 1"
    by simp
  have c: "in_grid ?g 1 0"
    by (simp add: in_grid_def)
  have d: "game_get_cell (game_randomize ?d ?g 0) 1 0 = 0"
    and e: "game_get_cell (game_randomize ?d ?g 1) 1 0 = 1"
    using game_randomize_extremes [OF a b c] by blast+
  have f: "cells (game_randomize ?d ?g 0) = [0, 0, 0, 0]"
    by code_simp
  have g: "cells (game_randomize ?d ?g 1) = [1, 1, 1, 1]"
    by code_simp
  have h: "cells (game_randomize ?d ?g (1 / 2)) = [1, 0, 1, 0]"
    by code_simp
  show ?thesis
    by (intro conjI a b c d e f g h)
qed

subsection \<open>Grids reached from a created grid\<close>

text \<open>
  The premises of the step and randomize properties hold of every grid in use: a grid that
  \<^verbatim>\<open>game_create\<close> returned for a cell count inside the \<^verbatim>\<open>int\<close> range has buffers of
  \<open>width * height\<close> binary cells, and every operation keeps them so.
\<close>

lemma length_memset_zero: "length (memset_zero buf nbytes) = length buf"
  by (simp add: memset_zero_def Let_def)

lemma randomize_y_length_cells:
  "length (cells (fst (randomize_y draws density g k y))) = length (cells g)"
  by (induction draws density g k y rule: randomize_y.induct)
     (subst randomize_y.simps, simp add: randomize_x_length_cells)

lemma game_set_cell_buffers_ok: "buffers_ok g \<Longrightarrow> buffers_ok (game_set_cell g x y alive)"
  by (simp add: buffers_ok_def game_set_cell_def)

lemma set_cells_from_buffers_ok:
  "buffers_ok g \<Longrightarrow> buffers_ok (set_cells_from g ox oy coords count i)"
  by (induction g ox oy coords count i rule: set_cells_from.induct)
     (subst set_cells_from.simps, simp add: game_set_cell_buffers_ok)

lemma pattern_load_buffers_ok: "buffers_ok g \<Longrightarrow> buffers_ok (pattern_load g t x y)"
  by (cases t)
     (simp_all add: place_glider_def place_blinker_def place_toad_def place_beacon_def
        place_pulsar_def place_gosper_gun_def set_cells_def set_cells_from_buffers_ok)

lemma game_clear_buffers_ok: "buffers_ok g \<Longrightarrow> buffers_ok (game_clear g)"
  by (simp add: buffers_ok_def game_clear_def Let_def length_memset_zero)

lemma game_randomize_buffers_ok: "buffers_ok g \<Longrightarrow> buffers_ok (game_randomize draws g density)"
  by (simp add: buffers_ok_def game_randomize_def randomize_y_width randomize_y_height
      randomize_y_length_cells randomize_y_next)

lemma game_step_buffers_ok: "buffers_ok g \<Longrightarrow> buffers_ok (game_step g)"
  by (simp add: buffers_ok_def game_step_def Let_def step_y_width step_y_height
      step_y_length_next step_y_cells)

lemma apply_op_buffers_ok: "buffers_ok g \<Longrightarrow> buffers_ok (apply_op g op)"
  by (cases op)
     (simp_all add: game_set_cell_buffers_ok game_clear_buffers_ok game_randomize_buffers_ok
        game_step_buffers_ok pattern_load_buffers_ok)

lemma run_ops_buffers_ok: "buffers_ok g \<Longrightarrow> buffers_ok (run_ops g ops)"
  by (induction ops arbitrary: g) (simp_all add: apply_op_buffers_ok)

lemma game_create_buffers_ok:
  "game_create env w h = Some g \<Longrightarrow> 0 \<le> w * h \<Longrightarrow> w * h < 2 ^ 31 \<Longrightarrow> buffers_ok g"
  by (drule (2) game_create_Some) (simp add: buffers_ok_def)

lemma reachable_grid_ok:
  assumes "game_create env w h = Some g" "0 \<le> w * h" "w * h < 2 ^ 31"
  shows "buffers_ok (run_ops g ops) \<and> binary (cells (run_ops g ops))"
  using assms run_ops_buffers_ok [OF game_create_buffers_ok] run_ops_binary [OF game_create_binary]
  by blast

section \<open>Properties of the pattern catalog\<close>

text \<open>
  Claim C6: \<^verbatim>\<open>pattern_from_name\<close> succeeds on \<open>gosper\<close> and on \<open>gosper_gun\<close> with the same
  pattern, and returns 0 (not found) for every name that is none of the seven recognized
  names.
\<close>

theorem pattern_from_name_gosper_aliases:
  "pattern_from_name ''gosper'' out = (1, PATTERN_GOSPER_GUN)
   \<and> pattern_from_name ''gosper_gun'' out = (1, PATTERN_GOSPER_GUN)
   \<and> (name \<notin> set [''glider'', ''blinker'', ''toad'', ''beacon'', ''pulsar'', ''gosper'',
                    ''gosper_gun'']
        \<longrightarrow> fst (pattern_from_name name out) = 0)"
  by (simp add: pattern_from_name_def)

theorem pattern_from_name_gosper_aliases_witness:
  "''nonexistent'' \<notin> set [''glider'', ''blinker'', ''toad'', ''beacon'', ''pulsar'', ''gosper'',
                          ''gosper_gun'']
   \<and> fst (pattern_from_name ''nonexistent'' PATTERN_GLIDER) = 0
   \<and> fst (pattern_from_name ''gosper'' PATTERN_GLIDER) = 1
   \<and> snd (pattern_from_name ''gosper'' PATTERN_GLIDER)
       = snd (pattern_from_name ''gosper_gun'' PATTERN_GLIDER)"
  using pattern_from_name_gosper_aliases [of PATTERN_GLIDER "''nonexistent''"]
  by simp

text \<open>
  Claim C10: when \<^verbatim>\<open>pattern_from_name\<close> returns 0, what \<^verbatim>\<open>*out\<close> holds is what it held
  before the call.
\<close>

theorem pattern_from_name_not_found_keeps_out:
  "fst (pattern_from_name name out) = 0 \<Longrightarrow> snd (pattern_from_name name out) = out"
  by (simp add: pattern_from_name_def split: if_splits)

theorem pattern_from_name_not_found_keeps_out_witness:
  "fst (pattern_from_name ''nonexistent'' PATTERN_TOAD) = 0
   \<and> snd (pattern_from_name ''nonexistent'' PATTERN_TOAD) = PATTERN_TOAD"
proof -
  have a: "fst (pattern_from_name ''nonexistent'' PATTERN_TOAD) = 0"
    by (simp add: pattern_from_name_def)
  show ?thesis
    using a pattern_from_name_not_found_keeps_out [OF a] by simp
qed

end
